theory Spec2Isabelle
  imports Main
begin

section \<open>Values, exceptions and the external connection\<close>

text \<open>
  The argument of \<^verbatim>\<open>__init__\<close> is an arbitrary Python object. \<open>PyInt\<close> stands for an
  instance of \<^verbatim>\<open>int\<close> or \<^verbatim>\<open>long\<close>; \<^verbatim>\<open>bool\<close> is a subclass of \<^verbatim>\<open>int\<close>, so
  \<^verbatim>\<open>isinstance(True, (int, long))\<close> holds; every other object is told apart by its repr.
\<close>

datatype pyval = PyInt int | PyBool bool | PyNone | PyStr string | PyObject string

fun isinstance_int_long :: "pyval \<Rightarrow> bool" where
  "isinstance_int_long (PyInt n) = True"
| "isinstance_int_long (PyBool b) = True"
| "isinstance_int_long v = False"

text \<open>The number an integer object compares as (\<^verbatim>\<open>True\<close> is 1, \<^verbatim>\<open>False\<close> is 0).\<close>

fun int_value :: "pyval \<Rightarrow> int" where
  "int_value (PyInt n) = n"
| "int_value (PyBool b) = (if b then 1 else 0)"
| "int_value v = 0"

text \<open>
  Exceptions. \<open>TypeError v\<close> is \<^verbatim>\<open>TypeError('Expected integer, got %r' % (maxsize, ))\<close>;
  \<open>OperationalError c\<close> is
  \<^verbatim>\<open>OperationalError("Cannot commit because connection was closed: %r" % (conn, ))\<close>.
  Everything else raised by the driver, the factory or the caller's block is a tagged
  instance, either of a class deriving from \<^verbatim>\<open>Exception\<close> or of one deriving from
  \<^verbatim>\<open>BaseException\<close> only (\<^verbatim>\<open>KeyboardInterrupt\<close>, \<^verbatim>\<open>SystemExit\<close>, \<^verbatim>\<open>GreenletExit\<close>):
  \<^verbatim>\<open>except Exception\<close> catches the former, a bare \<^verbatim>\<open>except:\<close> catches both.
\<close>

datatype pyexc =
    TypeError pyval
  | OperationalError nat
  | Raised_Exception nat
  | Raised_BaseException nat

fun is_Exception :: "pyexc \<Rightarrow> bool" where
  "is_Exception (Raised_BaseException n) = False"
| "is_Exception e = True"

text \<open>
  A connection object, as far as the pool reads it: the \<^verbatim>\<open>closed\<close> flag, the
  \<^verbatim>\<open>isolation_level\<close> attribute, and the driver's private state.
\<close>

record conn_state =
  closed :: bool
  isolation_level :: int
  hidden :: nat

type_synonym store = "nat \<Rightarrow> conn_state"

text \<open>
  The driver (psycopg2) and the connection factory are external: they are a parameter.
  A method of a connection object takes that object's state and returns the exception it
  raised, if any, with the object's new state. \<open>create_connection\<close> is the subclass hook
  \<^verbatim>\<open>self.connect(*self.args, **self.kwargs)\<close>: it raises, or returns a connection.
  \<open>hub_handle_error\<close> is \<^verbatim>\<open>gevent.get_hub().handle_error(conn, *sys.exc_info())\<close>, given
  the connection and the exception: it reports the exception and returns, or raises (the
  hub throws \<^verbatim>\<open>KeyboardInterrupt\<close>, \<^verbatim>\<open>SystemExit\<close> and \<^verbatim>\<open>SystemError\<close> into the main
  greenlet, which is the caller when the pool is used from there).
\<close>

record driver =
  create_connection :: "store \<Rightarrow> (pyexc + nat) \<times> store"
  conn_commit :: "conn_state \<Rightarrow> pyexc option \<times> conn_state"
  conn_rollback :: "conn_state \<Rightarrow> pyexc option \<times> conn_state"
  conn_close :: "conn_state \<Rightarrow> pyexc option \<times> conn_state"
  conn_set_isolation_level :: "int \<Rightarrow> conn_state \<Rightarrow> pyexc option \<times> conn_state"
  conn_cursor :: "conn_state \<Rightarrow> pyexc option \<times> conn_state"
  hub_handle_error :: "nat \<Rightarrow> pyexc \<Rightarrow> pyexc option"

text \<open>The calls the pool makes on its collaborators, in the order it makes them.\<close>

datatype call =
    Create_connection
  | Commit nat
  | Rollback nat
  | Close nat
  | Set_isolation_level nat int
  | Cursor nat
  | Unit_of_work nat
  | Handle_error nat pyexc

section \<open>DatabaseConnectionPool\<close>

text \<open>
  The fields of the pool object (\<open>maxsize\<close>, \<open>pool\<close>, \<open>size'\<close> for \<^verbatim>\<open>self.size\<close>,
  \<open>gets\<close>, \<open>puts\<close>), the connection objects it refers to (\<open>conns\<close>) and the calls made so
  far (\<open>calls\<close>). \<open>pool\<close> is the gevent \<^verbatim>\<open>Queue()\<close>: unbounded, first in first out,
  head of the list first.
\<close>

record world =
  maxsize :: int
  pool :: "nat list"
  size' :: int
  gets :: int
  puts :: int
  conns :: store
  calls :: "call list"

datatype 'a result = Returns 'a | Raises pyexc | Blocks

definition init :: "pyval \<Rightarrow> store \<Rightarrow> pyexc + world" where
  "init maxsize_arg st =
     (if \<not> isinstance_int_long maxsize_arg then Inl (TypeError maxsize_arg)
      else Inr \<lparr>maxsize = int_value maxsize_arg, pool = [], size' = 0, gets = 0, puts = 0,
                conns = st, calls = []\<rparr>)"

text \<open>\<^verbatim>\<open>DatabaseConnectionPool(maxsize=100)\<close>: the argument may be left out.\<close>

definition DatabaseConnectionPool_init :: "pyval option \<Rightarrow> store \<Rightarrow> pyexc + world" where
  "DatabaseConnectionPool_init arg st =
     init (case arg of None \<Rightarrow> PyInt 100 | Some v \<Rightarrow> v) st"

text \<open>\<^verbatim>\<open>PostgresConnectionPool(..., maxsize=...)\<close>: \<^verbatim>\<open>kwargs.pop('maxsize', None)\<close>.\<close>

definition PostgresConnectionPool_init :: "pyval option \<Rightarrow> store \<Rightarrow> pyexc + world" where
  "PostgresConnectionPool_init arg st =
     init (case arg of None \<Rightarrow> PyNone | Some v \<Rightarrow> v) st"

text \<open>
  \<^verbatim>\<open>get\<close>. \<^verbatim>\<open>pool.get()\<close> on an empty queue suspends the caller: the result \<open>Blocks\<close>.
\<close>

definition get :: "driver \<Rightarrow> world \<Rightarrow> nat result \<times> world" where
  "get d w =
     (let w1 = w\<lparr>gets := gets w + 1\<rparr>;
          pool_size = length (pool w1)
      in if size' w1 \<ge> maxsize w1 \<or> pool_size \<noteq> 0 then
           (case pool w1 of
              [] \<Rightarrow> (Blocks, w1)
            | item # rest \<Rightarrow> (Returns item, w1\<lparr>pool := rest\<rparr>))
         else
           (let w2 = w1\<lparr>size' := size' w1 + 1\<rparr>
            in case create_connection d (conns w2) of
                 (Inl e, st) \<Rightarrow>
                   (Raises e, w2\<lparr>size' := size' w2 - 1, conns := st,
                                 calls := calls w2 @ [Create_connection]\<rparr>)
               | (Inr new_item, st) \<Rightarrow>
                   (Returns new_item, w2\<lparr>conns := st,
                                         calls := calls w2 @ [Create_connection]\<rparr>)))"

definition put :: "nat \<Rightarrow> world \<Rightarrow> world" where
  "put item w = w\<lparr>pool := pool w @ [item], puts := puts w + 1\<rparr>"

text \<open>
  \<^verbatim>\<open>closeall\<close>: the loop pops the head of the queue and closes it; \<^verbatim>\<open>except Exception\<close>
  swallows what \<^verbatim>\<open>close()\<close> raises when it derives from \<^verbatim>\<open>Exception\<close>, anything else
  leaves the loop.
\<close>

function closeall :: "driver \<Rightarrow> world \<Rightarrow> pyexc option \<times> world" where
  "closeall d w =
     (if pool w = [] then (None, w)
      else
        (let conn = hd (pool w);
             r = conn_close d (conns w conn);
             w2 = w\<lparr>pool := tl (pool w), conns := (conns w)(conn := snd r),
                    calls := calls w @ [Close conn]\<rparr>
         in case fst r of
              None \<Rightarrow> closeall d w2
            | Some e \<Rightarrow> if is_Exception e then closeall d w2 else (Some e, w2)))"
  by pat_completeness auto
termination
  by (relation "measure (\<lambda>(d, w). length (pool w))") auto

declare closeall.simps [simp del]

text \<open>
  \<^verbatim>\<open>_rollback\<close> returns the connection when \<^verbatim>\<open>rollback()\<close> returned. When it raised, the
  bare \<^verbatim>\<open>except:\<close> gives the connection and the exception to the hub's \<^verbatim>\<open>handle_error\<close>
  and \<^verbatim>\<open>_rollback\<close> returns \<^verbatim>\<open>None\<close>; an exception raised by \<^verbatim>\<open>handle_error\<close> leaves
  \<^verbatim>\<open>_rollback\<close> (\<open>Inl\<close>).
\<close>

definition rollback :: "driver \<Rightarrow> nat \<Rightarrow> world \<Rightarrow> (pyexc + nat option) \<times> world" where
  "rollback d conn w =
     (case conn_rollback d (conns w conn) of
        (None, cs) \<Rightarrow>
          (Inr (Some conn),
           w\<lparr>conns := (conns w)(conn := cs), calls := calls w @ [Rollback conn]\<rparr>)
      | (Some e, cs) \<Rightarrow>
          (case hub_handle_error d conn e of
             None \<Rightarrow> Inr None
           | Some e1 \<Rightarrow> Inl e1,
           w\<lparr>conns := (conns w)(conn := cs),
             calls := calls w @ [Rollback conn, Handle_error conn e]\<rparr>))"

section \<open>The context managers connection() and cursor()\<close>

text \<open>
  The two generators differ in the value they yield only: \<^verbatim>\<open>conn\<close>, or
  \<^verbatim>\<open>conn.cursor(*args, **kwargs)\<close>, evaluated inside the \<^verbatim>\<open>try\<close>.
\<close>

datatype scope_kind = Via_connection | Via_cursor

text \<open>
  The caller's \<^verbatim>\<open>with\<close> block: given the connection it was handed, it changes connection
  objects and returns or raises.
\<close>

type_synonym unit_of_work = "nat \<Rightarrow> store \<Rightarrow> pyexc option \<times> store"

text \<open>
  The first statement of the \<^verbatim>\<open>try\<close>: the result is the exception raised, if any, and the
  local variable \<^verbatim>\<open>isolation_level\<close> afterwards.
\<close>

definition try_prologue ::
  "driver \<Rightarrow> int option \<Rightarrow> nat \<Rightarrow> world \<Rightarrow> pyexc option \<times> int option \<times> world" where
  "try_prologue d isolation_level_arg conn w =
     (case isolation_level_arg of
        None \<Rightarrow> (None, None, w)
      | Some l \<Rightarrow>
          if isolation_level (conns w conn) = l then (None, None, w)
          else
            (case conn_set_isolation_level d l (conns w conn) of
               (r, cs) \<Rightarrow>
                 (r, Some l, w\<lparr>conns := (conns w)(conn := cs),
                               calls := calls w @ [Set_isolation_level conn l]\<rparr>)))"

definition yield_value :: "driver \<Rightarrow> scope_kind \<Rightarrow> nat \<Rightarrow> world \<Rightarrow> pyexc option \<times> world" where
  "yield_value d m conn w =
     (case m of
        Via_connection \<Rightarrow> (None, w)
      | Via_cursor \<Rightarrow>
          (case conn_cursor d (conns w conn) of
             (r, cs) \<Rightarrow>
               (r, w\<lparr>conns := (conns w)(conn := cs), calls := calls w @ [Cursor conn]\<rparr>)))"

text \<open>The body of the \<^verbatim>\<open>try\<close>, the caller's block included (it runs at the \<^verbatim>\<open>yield\<close>).\<close>

definition try_block ::
  "driver \<Rightarrow> scope_kind \<Rightarrow> int option \<Rightarrow> unit_of_work \<Rightarrow> nat \<Rightarrow> world
     \<Rightarrow> pyexc option \<times> int option \<times> world" where
  "try_block d m isolation_level_arg body conn w =
     (case try_prologue d isolation_level_arg conn w of
        (Some e, lvl, w1) \<Rightarrow> (Some e, lvl, w1)
      | (None, lvl, w1) \<Rightarrow>
          (case yield_value d m conn w1 of
             (Some e, w2) \<Rightarrow> (Some e, lvl, w2)
           | (None, w2) \<Rightarrow>
               (case body conn (conns w2) of
                  (r, st) \<Rightarrow>
                    (r, lvl, w2\<lparr>conns := st, calls := calls w2 @ [Unit_of_work conn]\<rparr>))))"

text \<open>
  The clauses return the local variable \<^verbatim>\<open>conn\<close> (\<open>None\<close> for \<^verbatim>\<open>None\<close>), the exception in
  flight, and the state. In the \<^verbatim>\<open>except\<close> clause, an exception leaving \<open>closeall\<close> or
  \<^verbatim>\<open>_rollback\<close> comes before the assignment to \<^verbatim>\<open>conn\<close> is completed or the \<^verbatim>\<open>raise\<close> is
  reached: with \<open>closeall\<close> the variable is \<^verbatim>\<open>None\<close> already, with \<^verbatim>\<open>_rollback\<close> it still
  holds the connection.
\<close>

definition except_clause ::
  "driver \<Rightarrow> nat \<Rightarrow> pyexc \<Rightarrow> world \<Rightarrow> nat option \<times> pyexc option \<times> world" where
  "except_clause d conn e w =
     (if closed (conns w conn) then
        (case closeall d w of
           (None, w1) \<Rightarrow> (None, Some e, w1)
         | (Some e1, w1) \<Rightarrow> (None, Some e1, w1))
      else
        (case rollback d conn w of
           (Inr conn1, w1) \<Rightarrow> (conn1, Some e, w1)
         | (Inl e1, w1) \<Rightarrow> (Some conn, Some e1, w1)))"

definition else_clause ::
  "driver \<Rightarrow> nat \<Rightarrow> world \<Rightarrow> nat option \<times> pyexc option \<times> world" where
  "else_clause d conn w =
     (if closed (conns w conn) then (Some conn, Some (OperationalError conn), w)
      else
        (case conn_commit d (conns w conn) of
           (r, cs) \<Rightarrow>
             (Some conn, r, w\<lparr>conns := (conns w)(conn := cs),
                              calls := calls w @ [Commit conn]\<rparr>)))"

definition outcome :: "pyexc option \<Rightarrow> unit result" where
  "outcome r = (case r of None \<Rightarrow> Returns () | Some e \<Rightarrow> Raises e)"

definition finally_clause ::
  "driver \<Rightarrow> int option \<Rightarrow> nat option \<times> pyexc option \<times> world \<Rightarrow> unit result \<times> world" where
  "finally_clause d lvl x =
     (case x of
        (None, r, w) \<Rightarrow> (outcome r, w)
      | (Some conn, r, w) \<Rightarrow>
          if closed (conns w conn) then (outcome r, w)
          else
            (case lvl of
               None \<Rightarrow> (outcome r, put conn w)
             | Some l \<Rightarrow>
                 (case conn_set_isolation_level d l (conns w conn) of
                    (Some e, cs) \<Rightarrow>
                      (Raises e, w\<lparr>conns := (conns w)(conn := cs),
                                   calls := calls w @ [Set_isolation_level conn l]\<rparr>)
                  | (None, cs) \<Rightarrow>
                      (outcome r,
                       put conn (w\<lparr>conns := (conns w)(conn := cs),
                                   calls := calls w @ [Set_isolation_level conn l]\<rparr>)))))"

text \<open>
  A whole \<^verbatim>\<open>with pool.connection(isolation_level) as conn: body\<close> (or \<^verbatim>\<open>pool.cursor\<close>).
\<close>

definition checkout ::
  "driver \<Rightarrow> scope_kind \<Rightarrow> int option \<Rightarrow> unit_of_work \<Rightarrow> world \<Rightarrow> unit result \<times> world" where
  "checkout d m isolation_level_arg body w =
     (case get d w of
        (Blocks, w1) \<Rightarrow> (Blocks, w1)
      | (Raises e, w1) \<Rightarrow> (Raises e, w1)
      | (Returns conn, w1) \<Rightarrow>
          (case try_block d m isolation_level_arg body conn w1 of
             (Some e, lvl, w2) \<Rightarrow> finally_clause d lvl (except_clause d conn e w2)
           | (None, lvl, w2) \<Rightarrow> finally_clause d lvl (else_clause d conn w2)))"

definition connection ::
  "driver \<Rightarrow> int option \<Rightarrow> unit_of_work \<Rightarrow> world \<Rightarrow> unit result \<times> world" where
  "connection d = checkout d Via_connection"

definition cursor ::
  "driver \<Rightarrow> int option \<Rightarrow> unit_of_work \<Rightarrow> world \<Rightarrow> unit result \<times> world" where
  "cursor d = checkout d Via_cursor"

section \<open>Observations\<close>

text \<open>The commit and rollback calls of a trace, in order.\<close>

fun is_txn :: "call \<Rightarrow> bool" where
  "is_txn (Commit c) = True"
| "is_txn (Rollback c) = True"
| "is_txn x = False"

definition txn_calls :: "call list \<Rightarrow> call list" where
  "txn_calls cl = filter is_txn cl"

text \<open>The bound on \<^verbatim>\<open>self.size\<close>.\<close>

definition size_invariant :: "world \<Rightarrow> bool" where
  "size_invariant w = (0 \<le> size' w \<and> size' w \<le> maxsize w)"

text \<open>One round of the loop of \<open>closeall\<close>, on the connection at the head of the queue.\<close>

definition close_step :: "driver \<Rightarrow> nat \<Rightarrow> world \<Rightarrow> world" where
  "close_step d c w =
     w\<lparr>pool := tl (pool w), conns := (conns w)(c := snd (conn_close d (conns w c))),
       calls := calls w @ [Close c]\<rparr>"


section \<open>A driver to run the pool on\<close>

text \<open>
  Connection \<open>i\<close> starts open, at isolation level 1, with \<open>hidden = i\<close>. The driver's
  \<^verbatim>\<open>commit\<close> raises on connection 1, \<^verbatim>\<open>rollback\<close> on connection 2, \<^verbatim>\<open>close\<close> on
  connection 3 (after closing it), \<^verbatim>\<open>cursor\<close> on a closed connection; the factory returns
  connection 5. The hub raises what it is given unless that is an \<^verbatim>\<open>Exception\<close> instance.
\<close>

definition stub_store :: store where
  "stub_store = (\<lambda>i. \<lparr>closed = False, isolation_level = 1, hidden = i\<rparr>)"

definition stub_driver :: driver where
  "stub_driver =
     \<lparr>create_connection =
        (\<lambda>st. if closed (st 9) then (Inl (Raised_Exception 9), st) else (Inr 5, st)),
      conn_commit = (\<lambda>cs. (if hidden cs = 1 then Some (Raised_Exception 1) else None, cs)),
      conn_rollback = (\<lambda>cs. (if hidden cs = 2 then Some (Raised_Exception 2) else None, cs)),
      conn_close =
        (\<lambda>cs. (if hidden cs = 3 then Some (Raised_Exception 3) else None,
               cs\<lparr>closed := True\<rparr>)),
      conn_set_isolation_level = (\<lambda>l cs. (None, cs\<lparr>isolation_level := l\<rparr>)),
      conn_cursor = (\<lambda>cs. (if closed cs then Some (Raised_Exception 4) else None, cs)),
      hub_handle_error = (\<lambda>c e. if is_Exception e then None else Some e)\<rparr>"

text \<open>
  A driver that fails more: \<^verbatim>\<open>rollback\<close> on connection 2 raises outside \<^verbatim>\<open>Exception\<close>
  (a \<^verbatim>\<open>KeyboardInterrupt\<close>), \<^verbatim>\<open>commit\<close> and \<^verbatim>\<open>rollback\<close> on connection 6 return but leave
  the connection closed, and \<^verbatim>\<open>set_isolation_level\<close> raises when the connection is at
  the level asked for already.
\<close>

definition harsh_driver :: driver where
  "harsh_driver =
     stub_driver
       \<lparr>conn_commit :=
          (\<lambda>cs. (if hidden cs = 1 then Some (Raised_Exception 1) else None,
                 if hidden cs = 6 then cs\<lparr>closed := True\<rparr> else cs)),
        conn_rollback :=
          (\<lambda>cs. (if hidden cs = 2 then Some (Raised_BaseException 2) else None,
                 if hidden cs = 6 then cs\<lparr>closed := True\<rparr> else cs)),
        conn_set_isolation_level :=
          (\<lambda>l cs. if isolation_level cs = l then (Some (Raised_Exception 8), cs)
                   else (None, cs\<lparr>isolation_level := l\<rparr>))\<rparr>"

text \<open>A pool of size 3 whose connections are all idle.\<close>

definition idle_world :: "nat list \<Rightarrow> world" where
  "idle_world q =
     \<lparr>maxsize = 3, pool = q, size' = int (length q), gets = 0, puts = 0,
      conns = stub_store, calls = []\<rparr>"

definition body_ok :: unit_of_work where
  "body_ok = (\<lambda>c st. (None, st))"

definition body_raises :: unit_of_work where
  "body_raises = (\<lambda>c st. (Some (Raised_Exception 7), st))"

text \<open>The connection is lost in the middle of the block, which raises.\<close>

definition body_dies :: unit_of_work where
  "body_dies = (\<lambda>c st. (Some (Raised_Exception 7), st(c := (st c)\<lparr>closed := True\<rparr>)))"

text \<open>The connection is lost, and the block does not notice.\<close>

definition body_dies_silently :: unit_of_work where
  "body_dies_silently = (\<lambda>c st. (None, st(c := (st c)\<lparr>closed := True\<rparr>)))"

section \<open>Auxiliary facts\<close>

lemma closeall_Nil: "pool w = [] \<Longrightarrow> closeall d w = (None, w)"
  by (subst closeall.simps) simp

lemma closeall_Cons:
  "pool w = c # q \<Longrightarrow>
   closeall d w =
     (case fst (conn_close d (conns w c)) of
        None \<Rightarrow> closeall d (close_step d c w)
      | Some e \<Rightarrow> if is_Exception e then closeall d (close_step d c w)
                  else (Some e, close_step d c w))"
  by (subst closeall.simps) (simp add: Let_def close_step_def split: option.splits)

text \<open>What \<^verbatim>\<open>except Exception\<close> does not catch ends the loop with the rest still idle.\<close>

lemma closeall_stops_on_non_Exception:
  "pool w = c # q \<Longrightarrow> fst (conn_close d (conns w c)) = Some e \<Longrightarrow> \<not> is_Exception e \<Longrightarrow>
   closeall d w = (Some e, close_step d c w) \<and> pool (close_step d c w) = q"
  by (simp add: closeall_Cons close_step_def)

lemma close_step_fields [simp]:
  "maxsize (close_step d c w) = maxsize w"
  "size' (close_step d c w) = size' w"
  "gets (close_step d c w) = gets w"
  "puts (close_step d c w) = puts w"
  "pool (close_step d c w) = tl (pool w)"
  "calls (close_step d c w) = calls w @ [Close c]"
  by (simp_all add: close_step_def)

lemma closeall_frame_aux:
  "pool w = q \<Longrightarrow> closeall d w = (r, w') \<Longrightarrow>
     maxsize w' = maxsize w \<and> size' w' = size' w \<and> gets w' = gets w \<and> puts w' = puts w"
proof (induction q arbitrary: w)
  case Nil
  then show ?case by (simp add: closeall_Nil)
next
  case (Cons c q)
  have p: "pool (close_step d c w) = q" using Cons.prems(1) by simp
  show ?case
  proof (cases "closeall d w = closeall d (close_step d c w)")
    case True
    with Cons.prems(2) have "closeall d (close_step d c w) = (r, w')" by simp
    from Cons.IH[OF p this] show ?thesis by simp
  next
    case False
    then have "w' = close_step d c w"
      using Cons.prems by (simp add: closeall_Cons split: option.splits if_splits)
    then show ?thesis by simp
  qed
qed

lemma close_step_conns_other: "c' \<noteq> c \<Longrightarrow> conns (close_step d c w) c' = conns w c'"
  by (simp add: close_step_def)

lemma closeall_trace_aux:
  "pool w = q \<Longrightarrow> closeall d w = (r, w') \<Longrightarrow>
     \<exists>k. k \<le> length q \<and> pool w' = drop k q \<and> calls w' = calls w @ map Close (take k q)"
proof (induction q arbitrary: w)
  case Nil
  then show ?case by (simp add: closeall_Nil)
next
  case (Cons c q)
  have p: "pool (close_step d c w) = q" using Cons.prems(1) by simp
  show ?case
  proof (cases "closeall d w = closeall d (close_step d c w)")
    case True
    with Cons.prems(2) have "closeall d (close_step d c w) = (r, w')" by simp
    from Cons.IH[OF p this] obtain k where
      "k \<le> length q" "pool w' = drop k q" "calls w' = calls w @ Close c # map Close (take k q)"
      by auto
    then show ?thesis by (intro exI[of _ "Suc k"]) simp
  next
    case False
    then have "w' = close_step d c w"
      using Cons.prems by (simp add: closeall_Cons split: option.splits if_splits)
    then show ?thesis using Cons.prems(1) by (intro exI[of _ 1]) simp
  qed
qed

lemma closeall_others_aux:
  "pool w = q \<Longrightarrow> closeall d w = (r, w') \<Longrightarrow> c' \<notin> set q \<Longrightarrow> conns w' c' = conns w c'"
proof (induction q arbitrary: w)
  case Nil
  then show ?case by (simp add: closeall_Nil)
next
  case (Cons c q)
  have p: "pool (close_step d c w) = q" using Cons.prems(1) by simp
  have ne: "c' \<noteq> c" and nin: "c' \<notin> set q" using Cons.prems(3) by auto
  show ?case
  proof (cases "closeall d w = closeall d (close_step d c w)")
    case True
    with Cons.prems(2) have "closeall d (close_step d c w) = (r, w')" by simp
    from Cons.IH[OF p this nin] show ?thesis using ne by (simp add: close_step_conns_other)
  next
    case False
    then have "w' = close_step d c w"
      using Cons.prems by (simp add: closeall_Cons split: option.splits if_splits)
    then show ?thesis using ne by (simp add: close_step_conns_other)
  qed
qed

lemma closeall_drains_aux:
  "pool w = q \<Longrightarrow> \<forall>cs e. fst (conn_close d cs) = Some e \<longrightarrow> is_Exception e \<Longrightarrow>
   closeall d w = (r, w') \<Longrightarrow>
     r = None \<and> pool w' = [] \<and> calls w' = calls w @ map Close q"
proof (induction q arbitrary: w)
  case Nil
  then show ?case by (simp add: closeall_Nil)
next
  case (Cons c q)
  have p: "pool (close_step d c w) = q" using Cons.prems(1) by simp
  have "closeall d w = closeall d (close_step d c w)"
    using Cons.prems(1,2) by (simp add: closeall_Cons split: option.splits)
  with Cons.prems(3) have "closeall d (close_step d c w) = (r, w')" by simp
  from Cons.IH[OF p Cons.prems(2) this] show ?case by simp
qed

lemma txn_calls_append [simp]: "txn_calls (xs @ ys) = txn_calls xs @ txn_calls ys"
  by (simp add: txn_calls_def)

lemma txn_calls_simps [simp]:
  "txn_calls [] = []"
  "txn_calls (Commit c # xs) = Commit c # txn_calls xs"
  "txn_calls (Rollback c # xs) = Rollback c # txn_calls xs"
  "txn_calls (Close c # xs) = txn_calls xs"
  "txn_calls (Create_connection # xs) = txn_calls xs"
  "txn_calls (Set_isolation_level c l # xs) = txn_calls xs"
  "txn_calls (Cursor c # xs) = txn_calls xs"
  "txn_calls (Unit_of_work c # xs) = txn_calls xs"
  "txn_calls (Handle_error c e # xs) = txn_calls xs"
  by (simp_all add: txn_calls_def)

lemma txn_calls_map_Close [simp]: "txn_calls (map Close q) = []"
  by (induction q) simp_all

lemma get_frame:
  "get d w = (r, w1) \<Longrightarrow>
     puts w1 = puts w \<and> maxsize w1 = maxsize w \<and> gets w1 = gets w + 1 \<and>
     txn_calls (calls w1) = txn_calls (calls w)"
  by (auto simp: get_def Let_def split: list.splits prod.splits sum.splits if_splits)

lemma get_inv: "size_invariant w \<Longrightarrow> size_invariant (snd (get d w))"
  by (auto simp: get_def size_invariant_def Let_def split: list.splits prod.splits sum.splits)

lemma put_inv: "size_invariant w \<Longrightarrow> size_invariant (put c w)"
  by (simp add: put_def size_invariant_def)

lemma closeall_inv: "size_invariant w \<Longrightarrow> size_invariant (snd (closeall d w))"
  using closeall_frame_aux[OF refl, of d w "fst (closeall d w)" "snd (closeall d w)"]
  by (simp add: size_invariant_def)

lemma try_prologue_frame:
  "try_prologue d req c w = (r, lvl, w2) \<Longrightarrow>
     pool w2 = pool w \<and> puts w2 = puts w \<and> size' w2 = size' w \<and> maxsize w2 = maxsize w \<and>
     gets w2 = gets w \<and> txn_calls (calls w2) = txn_calls (calls w)"
  by (auto simp: try_prologue_def split: option.splits if_splits prod.splits)

lemma yield_value_frame:
  "yield_value d m c w = (r, w2) \<Longrightarrow>
     pool w2 = pool w \<and> puts w2 = puts w \<and> size' w2 = size' w \<and> maxsize w2 = maxsize w \<and>
     gets w2 = gets w \<and> txn_calls (calls w2) = txn_calls (calls w)"
  by (auto simp: yield_value_def split: scope_kind.splits prod.splits)

lemma try_block_frame:
  assumes "try_block d m req body c w = (r, lvl, w2)"
  shows "pool w2 = pool w \<and> puts w2 = puts w \<and> size' w2 = size' w \<and> maxsize w2 = maxsize w \<and>
     gets w2 = gets w \<and> txn_calls (calls w2) = txn_calls (calls w)"
proof -
  obtain r1 l1 w1 where p: "try_prologue d req c w = (r1, l1, w1)"
    by (cases "try_prologue d req c w") auto
  note f1 = try_prologue_frame[OF p]
  show ?thesis
  proof (cases r1)
    case (Some e)
    with assms p have "w2 = w1" by (simp add: try_block_def)
    with f1 show ?thesis by simp
  next
    case None
    obtain r2 w3 where y: "yield_value d m c w1 = (r2, w3)"
      by (cases "yield_value d m c w1") auto
    note f2 = yield_value_frame[OF y]
    show ?thesis
    proof (cases r2)
      case (Some e)
      with assms p y None have "w2 = w3" by (simp add: try_block_def)
      with f1 f2 show ?thesis by simp
    next
      case None2: None
      with assms p y None
      have "w2 = w3\<lparr>conns := snd (body c (conns w3)), calls := calls w3 @ [Unit_of_work c]\<rparr>"
        by (auto simp: try_block_def split: prod.splits)
      with f1 f2 show ?thesis by simp
    qed
  qed
qed

lemma try_block_level:
  "try_block d m req body c w = (r, Some l, w2) \<Longrightarrow> req = Some l"
  by (auto simp: try_block_def try_prologue_def split: option.splits if_splits prod.splits)

lemma checkout_unfold:
  "get d w = (Returns c, w1) \<Longrightarrow> try_block d m req body c w1 = (r, lvl, w2) \<Longrightarrow>
   checkout d m req body w =
     finally_clause d lvl
       (case r of Some e \<Rightarrow> except_clause d c e w2 | None \<Rightarrow> else_clause d c w2)"
  by (simp add: checkout_def split: option.splits)



lemma rollback_frame:
  "rollback d c w = (x, w') \<Longrightarrow> size' w' = size' w \<and> maxsize w' = maxsize w"
  by (auto simp: rollback_def split: prod.splits option.splits)

lemma except_clause_frame:
  "except_clause d c e w = (x, y, w') \<Longrightarrow> size' w' = size' w \<and> maxsize w' = maxsize w"
proof (cases "closed (conns w c)")
  case True
  assume a: "except_clause d c e w = (x, y, w')"
  obtain r w1 where cl: "closeall d w = (r, w1)" by (cases "closeall d w") auto
  with a True have "w' = w1" by (auto simp: except_clause_def split: option.splits)
  with closeall_frame_aux[OF refl cl] show ?thesis by simp
next
  case False
  assume a: "except_clause d c e w = (x, y, w')"
  with False show ?thesis
    by (auto simp: except_clause_def split: prod.splits sum.splits dest: rollback_frame)
qed

lemma else_clause_frame:
  "else_clause d c w = (x, y, w') \<Longrightarrow> size' w' = size' w \<and> maxsize w' = maxsize w"
  by (auto simp: else_clause_def split: if_splits prod.splits)

lemma finally_clause_frame:
  "finally_clause d lvl (x, y, w) = (r, w') \<Longrightarrow> size' w' = size' w \<and> maxsize w' = maxsize w"
  by (auto simp: finally_clause_def put_def split: option.splits if_splits prod.splits)

lemma checkout_inv:
  assumes "size_invariant w"
  shows "size_invariant (snd (checkout d m req body w))"
proof -
  obtain g w1 where g: "get d w = (g, w1)" by (cases "get d w") auto
  have i1: "size_invariant w1" using get_inv[OF assms, where d = d] g by simp
  show ?thesis
  proof (cases g)
    case (Returns c)
    obtain r lvl w2 where t: "try_block d m req body c w1 = (r, lvl, w2)"
      by (cases "try_block d m req body c w1") auto
    have i2: "size_invariant w2" using try_block_frame[OF t] i1 by (simp add: size_invariant_def)
    obtain x y w3 where
      h: "(case r of Some e \<Rightarrow> except_clause d c e w2 | None \<Rightarrow> else_clause d c w2) = (x, y, w3)"
      by (cases "(case r of Some e \<Rightarrow> except_clause d c e w2 | None \<Rightarrow> else_clause d c w2)") auto
    have i3: "size_invariant w3"
      using h i2 except_clause_frame else_clause_frame
      by (cases r) (auto simp: size_invariant_def)
    obtain res w4 where f: "finally_clause d lvl (x, y, w3) = (res, w4)"
      by (cases "finally_clause d lvl (x, y, w3)") auto
    have "size_invariant w4" using finally_clause_frame[OF f] i3 by (simp add: size_invariant_def)
    moreover have "checkout d m req body w = (res, w4)"
    proof -
      have "get d w = (Returns c, w1)" using g Returns by simp
      from checkout_unfold[OF this t] h f show ?thesis by simp
    qed
    ultimately show ?thesis by simp
  next
    case (Raises e)
    with g i1 show ?thesis by (simp add: checkout_def)
  next
    case Blocks
    with g i1 show ?thesis by (simp add: checkout_def)
  qed
qed

lemma outcome_simps [simp]: "outcome None = Returns ()" "outcome (Some e) = Raises e"
  by (simp_all add: outcome_def)


text \<open>
  When the isolation level call of the \<^verbatim>\<open>finally\<close> clause raises, that exception is the
  one that propagates and \<open>put\<close> is not reached.
\<close>

lemma finally_clause_level_call_raises:
  "\<not> closed (conns w c) \<Longrightarrow> conn_set_isolation_level d l (conns w c) = (Some e', cs) \<Longrightarrow>
   finally_clause d (Some l) (Some c, r, w) =
     (Raises e', w\<lparr>conns := (conns w)(c := cs),
                    calls := calls w @ [Set_isolation_level c l]\<rparr>)"
  by (simp add: finally_clause_def)

lemma finally_clause_txn:
  "txn_calls (calls (snd (finally_clause d lvl (x, r, w)))) = txn_calls (calls w)"
  by (auto simp: finally_clause_def put_def split: option.splits prod.splits)


section \<open>Construction\<close>

text \<open>
  Claim C8, as amended. The spec has construction fail for every \<open>maxSize\<close> that is not
  a positive integer. \<^verbatim>\<open>__init__\<close> tests the type only: it raises \<^verbatim>\<open>TypeError\<close>
  exactly when the argument is not an instance of \<^verbatim>\<open>int\<close> or \<^verbatim>\<open>long\<close>, the exception
  carries the argument, and every integer, zero and the negative ones included, gives a pool
  with that \<open>maxsize\<close>.
\<close>

theorem init_rejects_exactly_non_integers:
  "((\<exists>e. init v st = Inl e) = (\<not> isinstance_int_long v)) \<and>
   (init v st = Inl e \<longrightarrow> e = TypeError v) \<and>
   init (PyInt n) st =
     Inr \<lparr>maxsize = n, pool = [], size' = 0, gets = 0, puts = 0, conns = st, calls = []\<rparr>"
  by (auto simp: init_def)

theorem init_rejects_exactly_non_integers_witness:
  "init PyNone stub_store = Inl (TypeError PyNone) \<and>
   PostgresConnectionPool_init None stub_store = Inl (TypeError PyNone) \<and>
   init (PyInt (- 2)) stub_store =
     Inr \<lparr>maxsize = - 2, pool = [], size' = 0, gets = 0, puts = 0, conns = stub_store,
          calls = []\<rparr>"
proof -
  have h: "init PyNone stub_store = Inl (TypeError PyNone)"
    by (simp add: init_def)
  from init_rejects_exactly_non_integers [of PyNone stub_store "TypeError PyNone" "- 2"] h
  show ?thesis by (simp add: PostgresConnectionPool_init_def)
qed

text \<open>
  Claim C8 as the spec states it fails: a pool of size zero and one of negative size are
  constructed without error.
\<close>

theorem init_accepts_non_positive:
  "init (PyInt 0) stub_store =
     Inr \<lparr>maxsize = 0, pool = [], size' = 0, gets = 0, puts = 0, conns = stub_store,
          calls = []\<rparr> \<and>
   init (PyInt (- 1)) stub_store =
     Inr \<lparr>maxsize = - 1, pool = [], size' = 0, gets = 0, puts = 0, conns = stub_store,
          calls = []\<rparr>"
  by (simp add: init_def)

section \<open>Acquire\<close>

text \<open>
  Claim C5. Every call of \<open>get\<close> adds one to \<open>gets\<close>. When \<open>size' \<ge> maxsize\<close> or the
  queue is not empty, the head of the queue is popped and nothing else changes; on an
  empty queue the caller is suspended. Otherwise the factory is called with \<open>size'\<close>
  already incremented; when it raises, the exception propagates and \<open>size'\<close> is back at
  its old value, so the failed attempt does not count against \<open>maxsize\<close>; when it returns,
  the new connection is returned and \<open>size'\<close> is one more.
\<close>

theorem get_pops_or_creates:
  "gets (snd (get d w)) = gets w + 1 \<and>
   (if size' w \<ge> maxsize w \<or> pool w \<noteq> [] then
      (case pool w of
         [] \<Rightarrow> get d w = (Blocks, w\<lparr>gets := gets w + 1\<rparr>)
       | item # rest \<Rightarrow> get d w = (Returns item, w\<lparr>gets := gets w + 1, pool := rest\<rparr>))
    else
      (case create_connection d (conns w) of
         (Inl e, st) \<Rightarrow>
           get d w = (Raises e, w\<lparr>gets := gets w + 1, conns := st,
                                  calls := calls w @ [Create_connection]\<rparr>)
       | (Inr c, st) \<Rightarrow>
           get d w = (Returns c, w\<lparr>gets := gets w + 1, size' := size' w + 1, conns := st,
                                   calls := calls w @ [Create_connection]\<rparr>)))"
  by (auto simp: get_def Let_def split: list.splits prod.splits sum.splits)

section \<open>Evaluation on the stub driver\<close>

lemmas stub_defs = stub_store_def stub_driver_def idle_world_def body_ok_def body_raises_def
  body_dies_def body_dies_silently_def

lemmas scope_defs = get_def try_block_def try_prologue_def yield_value_def except_clause_def
  else_clause_def finally_clause_def rollback_def put_def checkout_def outcome_def Let_def


section \<open>The bound on the number of connections\<close>

text \<open>
  Claim C6. A pool constructed with a positive integer \<open>maxsize\<close> starts with
  \<open>0 \<le> size' \<le> maxsize\<close>, and \<open>get\<close> (whether it pops, suspends, creates a connection
  or fails to create one), \<open>put\<close>, \<open>closeall\<close> and a whole checkout through
  \<open>connection\<close> or \<open>cursor\<close> each keep the bound.
\<close>

theorem size_invariant_preserved:
  "(isinstance_int_long v \<and> 0 < int_value v \<longrightarrow>
      (\<exists>w. init v st = Inr w \<and> maxsize w = int_value v \<and> size_invariant w)) \<and>
   (size_invariant w \<longrightarrow>
      size_invariant (snd (get d w)) \<and> size_invariant (put c w) \<and>
      size_invariant (snd (closeall d w)) \<and>
      size_invariant (snd (checkout d m req body w)))"
  using get_inv put_inv closeall_inv checkout_inv
  by (auto simp: init_def size_invariant_def)

theorem size_invariant_preserved_witness:
  "size_invariant (idle_world [0]) \<and>
   (\<exists>w. init (PyInt 3) stub_store = Inr w \<and> maxsize w = 3 \<and> size_invariant w) \<and>
   size_invariant (snd (get stub_driver (idle_world [0]))) \<and>
   size_invariant (put 4 (idle_world [0])) \<and>
   size_invariant (snd (closeall stub_driver (idle_world [0]))) \<and>
   size_invariant (snd (cursor stub_driver (Some 3) body_dies (idle_world [0])))"
proof -
  have h1: "isinstance_int_long (PyInt 3) \<and> 0 < int_value (PyInt 3)" by simp
  have h2: "size_invariant (idle_world [0])" by (simp add: size_invariant_def idle_world_def)
  from size_invariant_preserved
    [of "PyInt 3" stub_store "idle_world [0]" stub_driver 4 Via_cursor "Some 3" body_dies] h1 h2
  show ?thesis by (simp add: connection_def cursor_def)
qed

section \<open>Closing the idle connections\<close>

text \<open>
  Claim C9. \<open>closeall\<close> leaves \<open>maxsize\<close>, \<open>size'\<close>, \<open>gets\<close> and \<open>puts\<close> as they were
  and does not touch a connection that is not in the queue; it closes a prefix of the
  queue, head first, and nothing else. When what \<^verbatim>\<open>close()\<close> raises is an error (an
  instance of \<^verbatim>\<open>Exception\<close>), each one is ignored: \<open>closeall\<close> returns, the queue is
  empty and every connection that was idle has been closed once, in queue order.
\<close>

theorem closeall_drains_idle_queue:
  assumes "closeall d w = (r, w')"
  shows "maxsize w' = maxsize w \<and> size' w' = size' w \<and> gets w' = gets w \<and> puts w' = puts w \<and>
         (\<forall>c. c \<notin> set (pool w) \<longrightarrow> conns w' c = conns w c) \<and>
         (\<exists>k. pool w' = drop k (pool w) \<and> calls w' = calls w @ map Close (take k (pool w))) \<and>
         ((\<forall>cs e. fst (conn_close d cs) = Some e \<longrightarrow> is_Exception e) \<longrightarrow>
            r = None \<and> pool w' = [] \<and> calls w' = calls w @ map Close (pool w))"
  using closeall_frame_aux[OF refl assms] closeall_others_aux[OF refl assms]
    closeall_trace_aux[OF refl assms] closeall_drains_aux[OF refl _ assms]
  by blast

theorem closeall_drains_idle_queue_witness:
  "closeall stub_driver (idle_world [0, 3, 5]) =
     (None, (idle_world [0, 3, 5])
        \<lparr>pool := [],
         conns := stub_store(0 := (stub_store 0)\<lparr>closed := True\<rparr>,
                             3 := (stub_store 3)\<lparr>closed := True\<rparr>,
                             5 := (stub_store 5)\<lparr>closed := True\<rparr>),
         calls := [Close 0, Close 3, Close 5]\<rparr>) \<and>
   fst (conn_close stub_driver (stub_store 3)) = Some (Raised_Exception 3) \<and>
   size' (snd (closeall stub_driver (idle_world [0, 3, 5]))) = 3 \<and>
   conns (snd (closeall stub_driver (idle_world [0, 3, 5]))) 4 = stub_store 4"
proof -
  let ?w = "idle_world [0, 3, 5]"
  have h1: "closeall stub_driver ?w = (fst (closeall stub_driver ?w), snd (closeall stub_driver ?w))"
    by simp
  have h2: "\<forall>cs e. fst (conn_close stub_driver cs) = Some e \<longrightarrow> is_Exception e"
    by (simp add: stub_driver_def)
  have h3: "4 \<notin> set (pool ?w)" by (simp add: idle_world_def)
  have e: "closeall stub_driver ?w =
     (None, ?w\<lparr>pool := [],
         conns := stub_store(0 := (stub_store 0)\<lparr>closed := True\<rparr>,
                             3 := (stub_store 3)\<lparr>closed := True\<rparr>,
                             5 := (stub_store 5)\<lparr>closed := True\<rparr>),
         calls := [Close 0, Close 3, Close 5]\<rparr>)"
    by (simp add: closeall_Cons closeall_Nil close_step_def idle_world_def stub_driver_def)
  from closeall_drains_idle_queue [OF h1] h2 h3 e
  show ?thesis by (simp add: connection_def cursor_def stub_driver_def stub_store_def idle_world_def)
qed

section \<open>The transaction scope\<close>









text \<open>
  Claim C7, as amended. A checkout whose \<^verbatim>\<open>try\<close> block raises \<open>e\<close> with the connection
  open, where \<^verbatim>\<open>rollback()\<close> raises \<open>e'\<close> and the hub's \<^verbatim>\<open>handle_error\<close>, given the
  connection and \<open>e'\<close>, returns: the checkout raises the original \<open>e\<close>, and the connection
  is not put back: the queue and \<open>puts\<close> are as \<open>get\<close> left them.
\<close>

theorem rollback_failure_path:
  assumes g: "get d w = (Returns c, w1)"
      and t: "try_block d m req body c w1 = (Some e, lvl, w2)"
      and alive: "\<not> closed (conns w2 c)"
      and rb: "conn_rollback d (conns w2 c) = (Some e', cs)"
      and he: "hub_handle_error d c e' = None"
  shows "checkout d m req body w =
           (Raises e, w2\<lparr>conns := (conns w2)(c := cs),
                          calls := calls w2 @ [Rollback c, Handle_error c e']\<rparr>) \<and>
         pool (snd (checkout d m req body w)) = pool w1 \<and>
         puts (snd (checkout d m req body w)) = puts w"
proof -
  note gf = get_frame[OF g]
  note tf = try_block_frame[OF t]
  have "checkout d m req body w =
           (Raises e, w2\<lparr>conns := (conns w2)(c := cs),
                          calls := calls w2 @ [Rollback c, Handle_error c e']\<rparr>)"
    using checkout_unfold[OF g t] alive rb he
    by (simp add: except_clause_def rollback_def finally_clause_def)
  then show ?thesis using gf tf by simp
qed

theorem rollback_failure_path_witness:
  "connection stub_driver None body_raises (idle_world [2]) =
     (Raises (Raised_Exception 7),
      (idle_world [2])
        \<lparr>pool := [], gets := 1,
         calls := [Unit_of_work 2, Rollback 2, Handle_error 2 (Raised_Exception 2)]\<rparr>)"
proof -
  let ?w = "idle_world [2]"
  let ?w1 = "snd (get stub_driver ?w)"
  let ?t = "try_block stub_driver Via_connection None body_raises 2 ?w1"
  let ?cs = "conns (snd (snd ?t)) 2"
  have g: "get stub_driver ?w = (Returns 2, ?w1)"
    by (simp add: get_def idle_world_def)
  have t: "?t = (Some (Raised_Exception 7), None, snd (snd ?t))"
    by (simp add: stub_defs scope_defs)
  have alive: "\<not> closed ?cs"
    by (simp add: stub_defs scope_defs)
  have rb: "conn_rollback stub_driver ?cs = (Some (Raised_Exception 2), ?cs)"
    by (simp add: stub_defs scope_defs)
  have he: "hub_handle_error stub_driver 2 (Raised_Exception 2) = None"
    by (simp add: stub_driver_def)
  have w2: "snd (snd ?t) = ?w\<lparr>pool := [], gets := 1, calls := [Unit_of_work 2]\<rparr>"
    by (simp add: stub_defs scope_defs)
  from rollback_failure_path [OF g t alive rb he] w2
  show ?thesis by (simp add: connection_def cursor_def idle_world_def)
qed

text \<open>
  Claim C7 as the spec states it fails when \<^verbatim>\<open>handle_error\<close> raises: the block raises 7
  on the open connection 2, \<^verbatim>\<open>rollback()\<close> raises outside \<^verbatim>\<open>Exception\<close>, the hub raises
  that exception, which leaves \<^verbatim>\<open>_rollback\<close> and replaces the original one, and the
  connection, still bound to \<^verbatim>\<open>conn\<close>, is put back.
\<close>

theorem rollback_failure_replaces_original:
  "connection harsh_driver None body_raises (idle_world [2]) =
     (Raises (Raised_BaseException 2),
      (idle_world [2])
        \<lparr>gets := 1, puts := 1,
         calls := [Unit_of_work 2, Rollback 2, Handle_error 2 (Raised_BaseException 2)]\<rparr>)"
  by (simp add: connection_def harsh_driver_def stub_defs scope_defs fun_upd_idem)

text \<open>
  In general, what \<^verbatim>\<open>handle_error\<close> raises is what the checkout raises, and the
  connection goes through the \<^verbatim>\<open>finally\<close> clause as a usable one.
\<close>

lemma rollback_failure_hub_raises:
  assumes g: "get d w = (Returns c, w1)"
      and t: "try_block d m req body c w1 = (Some e, lvl, w2)"
      and alive: "\<not> closed (conns w2 c)"
      and rb: "conn_rollback d (conns w2 c) = (Some e', cs)"
      and he: "hub_handle_error d c e' = Some e1"
  shows "checkout d m req body w =
           finally_clause d lvl
             (Some c, Some e1,
              w2\<lparr>conns := (conns w2)(c := cs),
                  calls := calls w2 @ [Rollback c, Handle_error c e']\<rparr>)"
  using checkout_unfold[OF g t] alive rb he
  by (simp add: except_clause_def rollback_def)

text \<open>
  Claim C10, as amended. A checkout whose \<^verbatim>\<open>try\<close> block returns with the connection open, where
  \<^verbatim>\<open>commit()\<close> raises \<open>e\<close> and leaves the connection open: one commit call and no
  rollback call are made. When no level was set, the checkout raises \<open>e\<close> and the
  connection is put back. When a level \<open>l\<close> was set, \<open>l\<close> is the requested level, it is
  applied again after the commit, and when that call returns the checkout raises \<open>e\<close> and
  the connection is put back.
\<close>

theorem failed_commit_path:
  assumes g: "get d w = (Returns c, w1)"
      and t: "try_block d m req body c w1 = (None, lvl, w2)"
      and alive: "\<not> closed (conns w2 c)"
      and cm: "conn_commit d (conns w2 c) = (Some e, cs)"
      and alive': "\<not> closed cs"
  shows "txn_calls (calls (snd (checkout d m req body w))) = txn_calls (calls w) @ [Commit c] \<and>
         (case lvl of
            None \<Rightarrow>
              checkout d m req body w =
                (Raises e,
                 put c (w2\<lparr>conns := (conns w2)(c := cs), calls := calls w2 @ [Commit c]\<rparr>))
          | Some l \<Rightarrow>
              req = Some l \<and>
              (fst (conn_set_isolation_level d l cs) = None \<longrightarrow>
                 checkout d m req body w =
                   (Raises e,
                    put c (w2\<lparr>conns := (conns w2)(c := snd (conn_set_isolation_level d l cs)),
                               calls := calls w2 @ [Commit c, Set_isolation_level c l]\<rparr>))))"
proof -
  note gf = get_frame[OF g]
  note tf = try_block_frame[OF t]
  let ?w3 = "w2\<lparr>conns := (conns w2)(c := cs), calls := calls w2 @ [Commit c]\<rparr>"
  have co: "checkout d m req body w = finally_clause d lvl (Some c, Some e, ?w3)"
    using checkout_unfold[OF g t] alive cm by (simp add: else_clause_def)
  have a: "txn_calls (calls (snd (checkout d m req body w))) = txn_calls (calls w) @ [Commit c]"
    using co finally_clause_txn[of d lvl "Some c" "Some e" ?w3] gf tf by simp
  show ?thesis
  proof (cases lvl)
    case None
    then show ?thesis using a co alive' by (simp add: finally_clause_def)
  next
    case (Some l)
    have "req = Some l" using t Some try_block_level by simp
    then show ?thesis using a co alive' Some
      by (auto simp: finally_clause_def split: prod.splits)
  qed
qed

theorem failed_commit_path_witness:
  "connection stub_driver (Some 3) body_ok (idle_world [1]) =
     (Raises (Raised_Exception 1),
      (idle_world [1])
        \<lparr>gets := 1, puts := 1,
         conns := stub_store(1 := (stub_store 1)\<lparr>isolation_level := 3\<rparr>),
         calls := [Set_isolation_level 1 3, Unit_of_work 1, Commit 1,
                   Set_isolation_level 1 3]\<rparr>)"
proof -
  let ?w = "idle_world [1]"
  let ?w1 = "snd (get stub_driver ?w)"
  let ?t = "try_block stub_driver Via_connection (Some 3) body_ok 1 ?w1"
  let ?cs = "conns (snd (snd ?t)) 1"
  have g: "get stub_driver ?w = (Returns 1, ?w1)"
    by (simp add: get_def idle_world_def)
  have t: "?t = (None, Some 3, snd (snd ?t))"
    by (simp add: stub_defs scope_defs)
  have alive: "\<not> closed ?cs"
    by (simp add: stub_defs scope_defs)
  have cm: "conn_commit stub_driver ?cs = (Some (Raised_Exception 1), ?cs)"
    by (simp add: stub_defs scope_defs)
  have lv: "fst (conn_set_isolation_level stub_driver 3 ?cs) = None"
    by (simp add: stub_driver_def)
  have w2: "snd (snd ?t) =
      ?w\<lparr>pool := [], gets := 1,
         conns := stub_store(1 := (stub_store 1)\<lparr>isolation_level := 3\<rparr>),
         calls := [Set_isolation_level 1 3, Unit_of_work 1]\<rparr>"
    by (simp add: stub_defs scope_defs)
  from failed_commit_path [OF g t alive cm alive] lv w2
  show ?thesis by (simp add: connection_def cursor_def stub_defs put_def)
qed

text \<open>
  Claim C10 as stated fails. With level 3 requested on connection 1, the block returns,
  the connection is open and stays open, and \<^verbatim>\<open>commit()\<close> raises 1; the level call of the
  \<^verbatim>\<open>finally\<close> clause raises 8, which replaces the commit exception, and the connection is
  not put back.
\<close>

theorem failed_commit_exception_replaced:
  "connection harsh_driver (Some 3) body_ok (idle_world [1]) =
     (Raises (Raised_Exception 8),
      (idle_world [1])
        \<lparr>pool := [], gets := 1,
         conns := stub_store(1 := (stub_store 1)\<lparr>isolation_level := 3\<rparr>),
         calls := [Set_isolation_level 1 3, Unit_of_work 1, Commit 1,
                   Set_isolation_level 1 3]\<rparr>) \<and>
   closed (conns (snd (connection harsh_driver (Some 3) body_ok (idle_world [1]))) 1) = False"
  by (simp add: connection_def harsh_driver_def stub_defs scope_defs)

section \<open>Isolation level\<close>

text \<open>Requesting the level the connection is at is the same as requesting none.\<close>

lemma same_level_is_no_request:
  assumes "get d w = (Returns c, w1)" and "isolation_level (conns w1 c) = l"
  shows "checkout d m (Some l) body w = checkout d m None body w"
proof -
  have "try_block d m (Some l) body c w1 = try_block d m None body c w1"
    using assms(2) by (simp add: try_block_def try_prologue_def)
  then show ?thesis using assms(1) by (simp add: checkout_def)
qed

text \<open>A level kept for the \<^verbatim>\<open>finally\<close> clause is the requested one, and differs from the
  level the connection had.\<close>

lemma level_call_is_requested_level:
  "try_block d m req body c w1 = (r, Some l, w2) \<Longrightarrow>
     req = Some l \<and> isolation_level (conns w1 c) \<noteq> l"
  by (auto simp: try_block_def try_prologue_def split: option.splits if_splits prod.splits)

text \<open>
  Claim C4. The spec has the connection's original isolation level restored before the
  connection is put back. The \<^verbatim>\<open>finally\<close> clause calls
  \<^verbatim>\<open>conn.set_isolation_level(isolation_level)\<close> with the requested level, the only one it
  has kept: a connection idle at level 1 and checked out with level 3 goes back on the
  queue at level 3, after two calls setting 3.
\<close>

theorem isolation_level_not_restored:
  "isolation_level (conns (idle_world [0]) 0) = 1 \<and>
   connection stub_driver (Some 3) body_ok (idle_world [0]) =
     (Returns (),
      (idle_world [0])
        \<lparr>gets := 1, puts := 1,
         conns := stub_store(0 := (stub_store 0)\<lparr>isolation_level := 3\<rparr>),
         calls := [Set_isolation_level 0 3, Unit_of_work 0, Commit 0,
                   Set_isolation_level 0 3]\<rparr>) \<and>
   isolation_level
     (conns (snd (connection stub_driver (Some 3) body_ok (idle_world [0]))) 0) = 3"
  by (simp add: connection_def stub_defs scope_defs)

end
